theory Spec2Isabelle
  imports Complex_Main "HOL-Library.Word" "HOL-Library.Char_ord" "HOL-Library.List_Lexorder"
begin

section \<open>The queue runner's state declarations (state.hh)\<close>

subsection \<open>Status enumerations\<close>

text \<open>
  \<^verbatim>\<open>BuildStatus\<close> (state.hh, lines 25-34) and \<^verbatim>\<open>BuildStepStatus\<close> (lines 37-46) are C
  enumerations with explicit enumerator values. Each is a datatype together with the
  function giving the integer value of every enumerator.
\<close>

datatype BuildStatus =
    bsSuccess
  | bsFailed
  | bsDepFailed
  | bsAborted
  | bsFailedWithOutput
  | bsTimedOut
  | bsUnsupported
  | bsLogLimitExceeded

fun BuildStatus_code :: "BuildStatus \<Rightarrow> nat" where
  "BuildStatus_code bsSuccess = 0"
| "BuildStatus_code bsFailed = 1"
| "BuildStatus_code bsDepFailed = 2"
| "BuildStatus_code bsAborted = 3"
| "BuildStatus_code bsFailedWithOutput = 6"
| "BuildStatus_code bsTimedOut = 7"
| "BuildStatus_code bsUnsupported = 9"
| "BuildStatus_code bsLogLimitExceeded = 10"

datatype BuildStepStatus =
    bssSuccess
  | bssFailed
  | bssAborted
  | bssTimedOut
  | bssCachedFailure
  | bssUnsupported
  | bssLogLimitExceeded
  | bssBusy

fun BuildStepStatus_code :: "BuildStepStatus \<Rightarrow> nat" where
  "BuildStepStatus_code bssSuccess = 0"
| "BuildStepStatus_code bssFailed = 1"
| "BuildStepStatus_code bssAborted = 4"
| "BuildStepStatus_code bssTimedOut = 7"
| "BuildStepStatus_code bssCachedFailure = 8"
| "BuildStepStatus_code bssUnsupported = 9"
| "BuildStepStatus_code bssLogLimitExceeded = 10"
| "BuildStepStatus_code bssBusy = 100"

text \<open>
  Modelled from the spec: the status column of a \<^verbatim>\<open>BuildSteps\<close> row. The functions that
  write these rows (\<^verbatim>\<open>createBuildStep\<close>, \<^verbatim>\<open>finishBuildStep\<close>, declared at lines 362-368)
  have their bodies outside state.hh. The spec says: "buildsteps insert-on-start with
  busy=1, update-on-finish with status/times/log path" and "plus 100 busy (never
  persisted as terminal)"; the header marks \<^verbatim>\<open>bssBusy = 100\<close> as "not stored". So a
  step that is busy has no status stored, and every other status is stored by its code.
\<close>

definition persistedStepStatus :: "BuildStepStatus \<Rightarrow> nat option" where
  "persistedStepStatus s = (if s = bssBusy then None else Some (BuildStepStatus_code s))"

subsection \<open>Remote results\<close>

text \<open>
  Modelled from the spec: the status of a \<^verbatim>\<open>nix::BuildResult\<close>. The type is declared by
  the package manager's library (store-api.hh), not by this repository; state.hh names
  two of its values, \<^verbatim>\<open>TransientFailure\<close> and \<^verbatim>\<open>MiscFailure\<close>. The spec lists the
  statuses a result carries: "success, transient failure, misc failure, permanent
  failure, timeout, log-limit-exceeded, output-rejected".
\<close>

datatype BuildResultStatus =
    Success
  | TransientFailure
  | MiscFailure
  | PermanentFailure
  | TimedOut
  | LogLimitExceeded
  | OutputRejected

text \<open>\<^verbatim>\<open>struct RemoteResult : nix::BuildResult\<close> (lines 49-58); \<^verbatim>\<open>time_t\<close> values are
  integers, a path is a string.\<close>

record RemoteResult =
  status :: BuildResultStatus
  startTime :: int
  stopTime :: int
  logFile :: string

definition newRemoteResult :: "BuildResultStatus \<Rightarrow> string \<Rightarrow> RemoteResult" where
  "newRemoteResult st lf = \<lparr>status = st, startTime = 0, stopTime = 0, logFile = lf\<rparr>"

definition canRetry :: "RemoteResult \<Rightarrow> bool" where
  "canRetry r = (status r = TransientFailure \<or> status r = MiscFailure)"

subsection \<open>Steps and machines\<close>

text \<open>
  A \<^verbatim>\<open>std::set<std::string>\<close> is modelled by the list of its elements in iteration
  order (ascending, without duplicates); \<^verbatim>\<open>s.find(x) == s.end()\<close> is \<open>x \<notin> set s\<close>.
  Of \<^verbatim>\<open>nix::Derivation\<close> only the field state.hh reads, \<^verbatim>\<open>platform\<close>, is kept.
\<close>

type_synonym string_set = "string list"

record Derivation =
  platform :: string

record Step =
  drvPath :: string
  drv :: Derivation
  requiredSystemFeatures :: string_set
  preferLocalBuild :: bool
  systemType :: string

record Machine =
  enabled :: bool
  sshName :: string
  systemTypes :: string_set
  supportedFeatures :: string_set
  mandatoryFeatures :: string_set

text \<open>
  \<^verbatim>\<open>Machine::supportsStep\<close> (lines 236-246). Each \<^verbatim>\<open>for\<close> loop with its early
  \<^verbatim>\<open>return false\<close> is a recursion over the elements still to visit; the result
  \<open>False\<close> of a loop function is that early return, \<open>True\<close> is falling out of the loop.
\<close>

fun mandatoryLoop :: "Step \<Rightarrow> string list \<Rightarrow> bool" where
  "mandatoryLoop step [] = True"
| "mandatoryLoop step (f # fs) =
     (if f \<notin> set (requiredSystemFeatures step)
         \<and> \<not> (preferLocalBuild step \<and> f = ''local'')
      then False
      else mandatoryLoop step fs)"

fun requiredLoop :: "Machine \<Rightarrow> string list \<Rightarrow> bool" where
  "requiredLoop m [] = True"
| "requiredLoop m (f # fs) =
     (if f \<notin> set (supportedFeatures m) then False else requiredLoop m fs)"

definition supportsStep :: "Machine \<Rightarrow> Step \<Rightarrow> bool" where
  "supportsStep m step =
     (if platform (drv step) \<notin> set (systemTypes m) then False
      else if \<not> mandatoryLoop step (mandatoryFeatures m) then False
      else if \<not> requiredLoop m (requiredSystemFeatures step) then False
      else True)"


subsection \<open>Jobsets\<close>

text \<open>
  \<^verbatim>\<open>class Jobset\<close> (lines 65-100). \<^verbatim>\<open>time_t\<close> values (seconds) are integers;
  \<^verbatim>\<open>shares\<close> is an \<^verbatim>\<open>unsigned int\<close>, a 32-bit word. The map \<^verbatim>\<open>steps\<close> from start time
  to duration is the list of its entries in ascending order of the key. A failed
  \<^verbatim>\<open>assert\<close> aborts the process: it is the error value of the model.
\<close>

datatype error = AssertionFailed

record Jobset =
  seconds :: int
  shares :: "32 word"
  steps :: "(int \<times> int) list"

definition schedulingWindow :: int where
  "schedulingWindow = 24 * 60 * 60"

text \<open>The member initialisers \<^verbatim>\<open>seconds{0}\<close>, \<^verbatim>\<open>shares{1}\<close> and the empty map.\<close>

definition newJobset :: Jobset where
  "newJobset = \<lparr>seconds = 0, shares = 1, steps = []\<rparr>"

text \<open>
  \<^verbatim>\<open>shareUsed\<close> returns \<^verbatim>\<open>(double) seconds / shares\<close>. The model returns the exact
  quotient, of which the \<^verbatim>\<open>double\<close> is the rounding, and \<open>None\<close> where the divisor is
  zero and the division has no finite quotient.
\<close>

definition shareUsed :: "Jobset \<Rightarrow> real option" where
  "shareUsed J =
     (if shares J = 0 then None
      else Some (real_of_int (seconds J) / real (unat (shares J))))"

text \<open>\<^verbatim>\<open>setShares(int shares_)\<close>: the argument is a signed 32-bit value, read by \<open>sint\<close>;
  the assignment to the unsigned field keeps its bits.\<close>

definition setShares :: "32 word \<Rightarrow> Jobset \<Rightarrow> error + Jobset" where
  "setShares shares' J =
     (if 0 < sint shares' then Inr (J\<lparr>shares := shares'\<rparr>) else Inl AssertionFailed)"

definition getSeconds :: "Jobset \<Rightarrow> int" where
  "getSeconds J = seconds J"

text \<open>
  Modelled from the spec: \<^verbatim>\<open>Jobset::addStep\<close> and \<^verbatim>\<open>Jobset::pruneSteps\<close>, declared at
  lines 97 and 99, whose bodies are outside state.hh. The spec says that a jobset holds
  "a sliding window of recent step CPU-seconds (map from step start time to
  duration)", that the outcome reducer will "add (startTime, duration) to every
  covering jobset's window", that "the window retains entries whose start time is
  within the last 24 hours", and that pruning is done "so expired entries don't
  count". Accordingly \<open>addStep\<close> enters the duration under its start time and counts it
  in \<open>seconds\<close>, and \<open>pruneSteps\<close> removes the entries that started 24 hours or more
  before the current time (its argument) and takes their durations out of \<open>seconds\<close>.
  The spec does not say what happens to two steps with the same start time; here both
  durations are kept, added up under the one key.
\<close>

fun windowAdd :: "int \<Rightarrow> int \<Rightarrow> (int \<times> int) list \<Rightarrow> (int \<times> int) list" where
  "windowAdd t d [] = [(t, d)]"
| "windowAdd t d ((t', d') # w) =
     (if t = t' then (t', d' + d) # w
      else if t < t' then (t, d) # (t', d') # w
      else (t', d') # windowAdd t d w)"

definition windowTotal :: "(int \<times> int) list \<Rightarrow> int" where
  "windowTotal w = sum_list (map snd w)"

definition inWindow :: "int \<Rightarrow> int \<Rightarrow> bool" where
  "inWindow now t = (now - schedulingWindow < t)"

definition addStep :: "int \<Rightarrow> int \<Rightarrow> Jobset \<Rightarrow> Jobset" where
  "addStep t d J = J\<lparr>steps := windowAdd t d (steps J), seconds := seconds J + d\<rparr>"

definition pruneSteps :: "int \<Rightarrow> Jobset \<Rightarrow> Jobset" where
  "pruneSteps now J =
     J\<lparr>steps := filter (\<lambda>e. inWindow now (fst e)) (steps J),
       seconds := seconds J - windowTotal (filter (\<lambda>e. \<not> inWindow now (fst e)) (steps J))\<rparr>"

text \<open>The operations that change a jobset, and a run of them from a given jobset; a
  failed assertion ends the run.\<close>

datatype JobsetOp = SetShares "32 word" | AddStep int int | PruneSteps int

fun applyOp :: "JobsetOp \<Rightarrow> Jobset \<Rightarrow> error + Jobset" where
  "applyOp (SetShares n) J = setShares n J"
| "applyOp (AddStep t d) J = Inr (addStep t d J)"
| "applyOp (PruneSteps now) J = Inr (pruneSteps now J)"

fun runJobset :: "JobsetOp list \<Rightarrow> Jobset \<Rightarrow> error + Jobset" where
  "runJobset [] J = Inr J"
| "runJobset (op # ops) J =
     (case applyOp op J of Inl e \<Rightarrow> Inl e | Inr J' \<Rightarrow> runJobset ops J')"

subsection \<open>Builds\<close>

text \<open>
  \<^verbatim>\<open>struct Build\<close> (lines 103-128), with the fields the properties below read:
  \<^verbatim>\<open>id\<close> (a \<^verbatim>\<open>BuildID\<close>, \<^verbatim>\<open>unsigned int\<close>), the two priorities (\<^verbatim>\<open>int\<close>, read by \<open>sint\<close>)
  and \<^verbatim>\<open>finishedInDB\<close>, whose member initialiser is \<^verbatim>\<open>false\<close>.
\<close>

record Build =
  build_id :: "32 word"
  localPriority :: "32 word"
  globalPriority :: "32 word"
  finishedInDB :: bool

definition newBuild :: "32 word \<Rightarrow> 32 word \<Rightarrow> 32 word \<Rightarrow> Build" where
  "newBuild i lp gp =
     \<lparr>build_id = i, localPriority = lp, globalPriority = gp, finishedInDB = False\<rparr>"

text \<open>
  Modelled from the spec: the operations that change a build after its creation; the
  code performing them is outside state.hh. The spec says that a build is "mutated by
  C3 (priority bumps) and C7 (finalization)", and that the outcome reducer will
  "finalize those builds and set finishedInDB".
\<close>

datatype BuildOp = BumpPriority "32 word" | Finalize

fun applyBuildOp :: "BuildOp \<Rightarrow> Build \<Rightarrow> Build" where
  "applyBuildOp (BumpPriority p) b = b\<lparr>globalPriority := p\<rparr>"
| "applyBuildOp Finalize b = b\<lparr>finishedInDB := True\<rparr>"

text \<open>The values of the flag over a build's lifetime: before the first operation and
  after each one. \<open>rises\<close> counts the changes from false to true in such a sequence,
  \<open>falls\<close> those from true to false.\<close>

fun flagTrace :: "BuildOp list \<Rightarrow> Build \<Rightarrow> bool list" where
  "flagTrace [] b = [finishedInDB b]"
| "flagTrace (op # ops) b = finishedInDB b # flagTrace ops (applyBuildOp op b)"

fun rises :: "bool list \<Rightarrow> nat" where
  "rises (x # y # zs) = (if \<not> x \<and> y then 1 else 0) + rises (y # zs)"
| "rises _ = 0"

fun falls :: "bool list \<Rightarrow> nat" where
  "falls (x # y # zs) = (if x \<and> \<not> y then 1 else 0) + falls (y # zs)"
| "falls _ = 0"

subsection \<open>Step construction and step state\<close>

text \<open>
  Modelled from the spec: the construction of a step (\<^verbatim>\<open>State::createStep\<close>, declared at
  lines 385-388, body outside state.hh). The spec says: "the derived systemType =
  platform concatenated with sorted required features"; the header's comment on the
  field is "concatenation of drv.platform and requiredSystemFeatures". The required
  features enter a \<^verbatim>\<open>std::set\<close>, which keeps them ascending and without duplicates.
\<close>

definition newStep :: "string \<Rightarrow> string \<Rightarrow> string list \<Rightarrow> bool \<Rightarrow> Step" where
  "newStep path plat feats pl =
     \<lparr>drvPath = path,
      drv = \<lparr>platform = plat\<rparr>,
      requiredSystemFeatures = sorted_list_of_set (set feats),
      preferLocalBuild = pl,
      systemType = plat @ concat (sorted_list_of_set (set feats))\<rparr>"

text \<open>
  \<^verbatim>\<open>Step::State\<close> (lines 142-183). Shared and weak pointers are addresses (natural
  numbers); a \<^verbatim>\<open>system_time\<close> is a number of clock ticks, and its default constructor
  gives the epoch, 0. \<^verbatim>\<open>lowestShareUsed\<close> is a \<^verbatim>\<open>double\<close> without an initialiser: its
  value is \<open>None\<close> until one is assigned.
\<close>

record StepState =
  created :: bool
  deps :: "nat set"
  rdeps :: "nat list"
  builds :: "nat list"
  jobsets :: "nat set"
  tries :: "32 word"
  after :: int
  highestGlobalPriority :: "32 word"
  lowestShareUsed :: "real option"
  highestLocalPriority :: "32 word"
  lowestBuildID :: "32 word"
  runnableSince :: int

text \<open>\<^verbatim>\<open>std::numeric_limits<BuildID>::max()\<close>: all 32 bits set.\<close>

definition BuildID_max :: "32 word" where
  "BuildID_max = - 1"

definition newStepState :: StepState where
  "newStepState =
     \<lparr>created = False, deps = {}, rdeps = [], builds = [], jobsets = {}, tries = 0,
      after = 0, highestGlobalPriority = 0, lowestShareUsed = None,
      highestLocalPriority = 0, lowestBuildID = BuildID_max, runnableSince = 0\<rparr>"

text \<open>
  Modelled from the spec: the update of a step's cached extrema when a build is
  attached (\<^verbatim>\<open>Build::propagatePriorities\<close>, declared at line 127, body outside state.hh).
  The spec says: "cache min/max on each step and update incrementally when a build
  attaches or its priority changes", the fields being "the highest global priority",
  "the highest local priority" and "the lowest ID of any build depending on this
  step". \<open>int_max\<close> is the maximum of two signed 32-bit values.
\<close>

definition int_max :: "32 word \<Rightarrow> 32 word \<Rightarrow> 32 word" where
  "int_max a b = (if sint a < sint b then b else a)"

definition attachBuild :: "Build \<Rightarrow> StepState \<Rightarrow> StepState" where
  "attachBuild b s =
     s\<lparr>highestGlobalPriority := int_max (highestGlobalPriority s) (globalPriority b),
       highestLocalPriority := int_max (highestLocalPriority s) (localPriority b),
       lowestBuildID := min (lowestBuildID s) (build_id b)\<rparr>"

subsection \<open>Retry budget\<close>

text \<open>
  The constants of \<^verbatim>\<open>class State\<close> (lines 255-257). \<^verbatim>\<open>retryBackoff\<close> is the \<^verbatim>\<open>float\<close>
  3.0; it and its first powers are whole numbers that a \<^verbatim>\<open>float\<close> holds exactly.
\<close>

definition maxTries :: "32 word" where
  "maxTries = 5"

definition retryInterval :: "32 word" where
  "retryInterval = 60"

definition retryBackoff :: real where
  "retryBackoff = 3.0"

text \<open>
  Modelled from the spec: the classification of a retryable result
  (\<^verbatim>\<open>State::doBuildStep\<close>, declared at lines 408-409, body outside state.hh). The spec
  says: "transient or misc: retryable: increment tries. If tries > maxTries (default 5),
  convert to non-retryable failure; else set after = now + retryInterval *
  retryBackoff^(tries-1)". The function takes the counter before the increment and the
  current time in seconds, and returns the new counter with the decision.
\<close>

datatype RetryDecision = GiveUp | RetryAfter real

definition retryStep :: "32 word \<Rightarrow> real \<Rightarrow> 32 word \<times> RetryDecision" where
  "retryStep n now =
     (let n' = n + 1 in
      (n',
       if maxTries < n' then GiveUp
       else RetryAfter (now + real (unat retryInterval) * retryBackoff ^ unat (n' - 1))))"

section \<open>Properties\<close>

subsection \<open>Status codes\<close>

lemma BuildStatus_UNIV:
  "(UNIV :: BuildStatus set) =
     {bsSuccess, bsFailed, bsDepFailed, bsAborted, bsFailedWithOutput, bsTimedOut,
      bsUnsupported, bsLogLimitExceeded}"
proof -
  have "x \<in> {bsSuccess, bsFailed, bsDepFailed, bsAborted, bsFailedWithOutput, bsTimedOut,
      bsUnsupported, bsLogLimitExceeded}" for x
    by (cases x) simp_all
  then show ?thesis by blast
qed

lemma BuildStepStatus_UNIV:
  "(UNIV :: BuildStepStatus set) =
     {bssSuccess, bssFailed, bssAborted, bssTimedOut, bssCachedFailure, bssUnsupported,
      bssLogLimitExceeded, bssBusy}"
proof -
  have "x \<in> {bssSuccess, bssFailed, bssAborted, bssTimedOut, bssCachedFailure,
      bssUnsupported, bssLogLimitExceeded, bssBusy}" for x
    by (cases x) simp_all
  then show ?thesis by blast
qed

lemma BuildStatus_code_range: "range BuildStatus_code = {0, 1, 2, 3, 6, 7, 9, 10}"
  unfolding BuildStatus_UNIV by simp

lemma BuildStepStatus_code_range:
  "range BuildStepStatus_code = {0, 1, 4, 7, 8, 9, 10, 100}"
  unfolding BuildStepStatus_UNIV by simp

lemma persistedStepStatus_range:
  "range persistedStepStatus = {None, Some 0, Some 1, Some 4, Some 7, Some 8, Some 9, Some 10}"
  unfolding BuildStepStatus_UNIV by (simp add: persistedStepStatus_def insert_commute)

text \<open>
  Claim C2. The build-status codes are exactly 0 success, 1 failed, 2 dep-failed,
  3 aborted, 6 failed-with-output, 7 timed-out, 9 unsupported and 10 log-limit-exceeded;
  the build-step-status codes are exactly 0, 1, 4, 7, 8, 9, 10 and 100 for busy; and
  100 is never the stored status of a step: a busy step has no stored status, and the
  stored statuses are exactly 0, 1, 4, 7, 8, 9, 10.
\<close>

theorem status_codes_exact:
  "map BuildStatus_code
     [bsSuccess, bsFailed, bsDepFailed, bsAborted, bsFailedWithOutput, bsTimedOut,
      bsUnsupported, bsLogLimitExceeded] = [0, 1, 2, 3, 6, 7, 9, 10]
   \<and> range BuildStatus_code = {0, 1, 2, 3, 6, 7, 9, 10}
   \<and> map BuildStepStatus_code
     [bssSuccess, bssFailed, bssAborted, bssTimedOut, bssCachedFailure, bssUnsupported,
      bssLogLimitExceeded, bssBusy] = [0, 1, 4, 7, 8, 9, 10, 100]
   \<and> range BuildStepStatus_code = {0, 1, 4, 7, 8, 9, 10, 100}
   \<and> persistedStepStatus bssBusy = None
   \<and> Some 100 \<notin> range persistedStepStatus
   \<and> range persistedStepStatus - {None} = Some ` {0, 1, 4, 7, 8, 9, 10}"
proof -
  have "Some 100 \<notin> range persistedStepStatus"
    unfolding persistedStepStatus_range by simp
  moreover have "range persistedStepStatus - {None} = Some ` {0, 1, 4, 7, 8, 9, 10}"
    unfolding persistedStepStatus_range by auto
  moreover have "persistedStepStatus bssBusy = None"
    by (simp add: persistedStepStatus_def)
  ultimately show ?thesis
    using BuildStatus_code_range BuildStepStatus_code_range by simp
qed

subsection \<open>Retryable results\<close>

text \<open>
  Claim C3. A remote result is retryable exactly when its status is transient failure
  or misc failure; a result whose status is success, permanent failure, timeout,
  log-limit-exceeded or output-rejected is not retryable.
\<close>

theorem canRetry_iff:
  "(canRetry r \<longleftrightarrow> status r = TransientFailure \<or> status r = MiscFailure)
   \<and> (status r \<in> {Success, PermanentFailure, TimedOut, LogLimitExceeded, OutputRejected}
        \<longrightarrow> \<not> canRetry r)"
  by (auto simp: canRetry_def)

theorem canRetry_iff_witness:
  "status (newRemoteResult TimedOut ''/log/x'')
     \<in> {Success, PermanentFailure, TimedOut, LogLimitExceeded, OutputRejected}
   \<and> \<not> canRetry (newRemoteResult TimedOut ''/log/x'')
   \<and> canRetry (newRemoteResult MiscFailure ''/log/y'')"
proof -
  have a: "status (newRemoteResult TimedOut ''/log/x'')
     \<in> {Success, PermanentFailure, TimedOut, LogLimitExceeded, OutputRejected}"
    by (simp add: newRemoteResult_def)
  have b: "status (newRemoteResult MiscFailure ''/log/y'') = MiscFailure"
    by (simp add: newRemoteResult_def)
  from a b show ?thesis
    using canRetry_iff [of "newRemoteResult TimedOut ''/log/x''"]
      canRetry_iff [of "newRemoteResult MiscFailure ''/log/y''"]
    by blast
qed

subsection \<open>Matching a step to a machine\<close>

lemma mandatoryLoop_iff:
  "mandatoryLoop step fs \<longleftrightarrow>
     (\<forall>f \<in> set fs. f \<in> set (requiredSystemFeatures step)
        \<or> (f = ''local'' \<and> preferLocalBuild step))"
  by (induction fs) auto

lemma requiredLoop_iff:
  "requiredLoop m fs \<longleftrightarrow> (\<forall>f \<in> set fs. f \<in> set (supportedFeatures m))"
  by (induction fs) auto

text \<open>
  Claim C1. For every machine and step, \<open>supportsStep\<close> returns true if and only if the
  step's platform is one of the machine's system types, every mandatory feature of the
  machine is a required feature of the step or is "local" while the step prefers local
  builds, and every required feature of the step is a supported feature of the machine.
\<close>

theorem supportsStep_iff:
  "supportsStep m step \<longleftrightarrow>
     platform (drv step) \<in> set (systemTypes m)
     \<and> (\<forall>f \<in> set (mandatoryFeatures m).
           f \<in> set (requiredSystemFeatures step)
           \<or> (f = ''local'' \<and> preferLocalBuild step))
     \<and> (\<forall>f \<in> set (requiredSystemFeatures step). f \<in> set (supportedFeatures m))"
  by (simp add: supportsStep_def mandatoryLoop_iff requiredLoop_iff)

theorem supportsStep_iff_witness:
  "platform (drv \<lparr>drvPath = ''/nix/store/c.drv'', drv = \<lparr>platform = ''x86_64-linux''\<rparr>,
       requiredSystemFeatures = [''kvm''], preferLocalBuild = True,
       systemType = ''x86_64-linuxkvm''\<rparr>)
     \<in> set [''i686-linux'', ''x86_64-linux'']
   \<and> set [''local''] = {''local''}
   \<and> (''local'' \<in> set [''kvm''] \<or> (''local'' = ''local'' \<and> True))
   \<and> set [''kvm''] = {''kvm''}
   \<and> ''kvm'' \<in> set [''big-parallel'', ''kvm'']
   \<and> supportsStep
        \<lparr>enabled = True, sshName = ''builder2'',
         systemTypes = [''i686-linux'', ''x86_64-linux''],
         supportedFeatures = [''big-parallel'', ''kvm''], mandatoryFeatures = [''local'']\<rparr>
        \<lparr>drvPath = ''/nix/store/c.drv'', drv = \<lparr>platform = ''x86_64-linux''\<rparr>,
         requiredSystemFeatures = [''kvm''], preferLocalBuild = True,
         systemType = ''x86_64-linuxkvm''\<rparr>
   \<and> \<not> supportsStep
        \<lparr>enabled = True, sshName = ''builder2'',
         systemTypes = [''i686-linux'', ''x86_64-linux''],
         supportedFeatures = [''big-parallel'', ''kvm''], mandatoryFeatures = [''local'']\<rparr>
        \<lparr>drvPath = ''/nix/store/c.drv'', drv = \<lparr>platform = ''x86_64-linux''\<rparr>,
         requiredSystemFeatures = [''kvm''], preferLocalBuild = False,
         systemType = ''x86_64-linuxkvm''\<rparr>"
  using supportsStep_iff
      [of "\<lparr>enabled = True, sshName = ''builder2'',
         systemTypes = [''i686-linux'', ''x86_64-linux''],
         supportedFeatures = [''big-parallel'', ''kvm''], mandatoryFeatures = [''local'']\<rparr>"
        "\<lparr>drvPath = ''/nix/store/c.drv'', drv = \<lparr>platform = ''x86_64-linux''\<rparr>,
         requiredSystemFeatures = [''kvm''], preferLocalBuild = True,
         systemType = ''x86_64-linuxkvm''\<rparr>"]
    supportsStep_iff
      [of "\<lparr>enabled = True, sshName = ''builder2'',
         systemTypes = [''i686-linux'', ''x86_64-linux''],
         supportedFeatures = [''big-parallel'', ''kvm''], mandatoryFeatures = [''local'']\<rparr>"
        "\<lparr>drvPath = ''/nix/store/c.drv'', drv = \<lparr>platform = ''x86_64-linux''\<rparr>,
         requiredSystemFeatures = [''kvm''], preferLocalBuild = False,
         systemType = ''x86_64-linuxkvm''\<rparr>"]
  by simp

subsection \<open>Jobset shares and the share used\<close>

lemma applyOp_shares: "shares J \<noteq> 0 \<Longrightarrow> applyOp op J = Inr J' \<Longrightarrow> shares J' \<noteq> 0"
proof (cases op)
  case (SetShares n)
  assume "shares J \<noteq> 0" "applyOp op J = Inr J'"
  with SetShares show ?thesis
    by (auto simp: setShares_def split: if_splits)
next
  case (AddStep t d)
  assume "shares J \<noteq> 0" "applyOp op J = Inr J'"
  with AddStep show ?thesis by (auto simp: addStep_def)
next
  case (PruneSteps now)
  assume "shares J \<noteq> 0" "applyOp op J = Inr J'"
  with PruneSteps show ?thesis by (auto simp: pruneSteps_def)
qed

lemma runJobset_shares: "shares J \<noteq> 0 \<Longrightarrow> runJobset ops J = Inr J' \<Longrightarrow> shares J' \<noteq> 0"
proof (induction ops arbitrary: J)
  case Nil
  then show ?case by simp
next
  case (Cons op ops)
  then show ?case
    by (auto split: sum.splits dest: applyOp_shares)
qed

lemma newJobset_shares: "shares newJobset \<noteq> 0"
  by (simp add: newJobset_def)

text \<open>
  Claim C6. The shares of a jobset are strictly positive at all times: a new jobset has
  shares 1, \<open>setShares\<close> fails its assertion on every argument that is not positive, each
  operation keeps positive shares positive, and so every jobset reached from a new one
  has positive shares.
\<close>

theorem shares_positive:
  "shares newJobset = 1
   \<and> (sint n \<le> 0 \<longrightarrow> setShares n J = Inl AssertionFailed)
   \<and> (0 < unat (shares J) \<and> applyOp op J = Inr J' \<longrightarrow> 0 < unat (shares J'))
   \<and> (runJobset ops newJobset = Inr J'' \<longrightarrow> 0 < unat (shares J''))"
proof -
  have a: "shares newJobset = 1" by (simp add: newJobset_def)
  have b: "sint n \<le> 0 \<longrightarrow> setShares n J = Inl AssertionFailed"
    by (simp add: setShares_def)
  have c: "0 < unat (shares J) \<and> applyOp op J = Inr J' \<longrightarrow> 0 < unat (shares J')"
    using applyOp_shares [of J op J'] by (auto simp: unat_gt_0)
  have d: "runJobset ops newJobset = Inr J'' \<longrightarrow> 0 < unat (shares J'')"
    using runJobset_shares [OF newJobset_shares, of ops J''] by (auto simp: unat_gt_0)
  from a b c d show ?thesis by blast
qed

theorem shares_positive_witness:
  "sint (0 :: 32 word) \<le> 0
   \<and> setShares 0 newJobset = Inl AssertionFailed
   \<and> 0 < unat (shares newJobset)
   \<and> applyOp (SetShares 4) newJobset = Inr (newJobset\<lparr>shares := 4\<rparr>)
   \<and> 0 < unat (shares (newJobset\<lparr>shares := 4\<rparr>))
   \<and> runJobset [AddStep 100 30, SetShares 4] newJobset
        = Inr \<lparr>seconds = 30, shares = 4, steps = [(100, 30)]\<rparr>
   \<and> 0 < unat (shares \<lparr>seconds = 30, shares = 4, steps = [(100, 30)]\<rparr>)"
proof -
  have h1: "sint (0 :: 32 word) \<le> 0" by simp
  have h2: "0 < unat (shares newJobset)" by (simp add: newJobset_def)
  have h3: "applyOp (SetShares 4) newJobset = Inr (newJobset\<lparr>shares := 4\<rparr>)"
    by (simp add: setShares_def)
  have h4: "runJobset [AddStep 100 30, SetShares 4] newJobset
        = Inr \<lparr>seconds = 30, shares = 4, steps = [(100, 30)]\<rparr>"
    by (simp add: newJobset_def addStep_def setShares_def)
  show ?thesis
    using h1 h2 h3 h4
      shares_positive [where n = 0 and J = newJobset and op = "SetShares 4"
        and J' = "newJobset\<lparr>shares := 4\<rparr>" and ops = "[AddStep 100 30, SetShares 4]"
        and J'' = "\<lparr>seconds = 30, shares = 4, steps = [(100, 30)]\<rparr>"]
    by blast
qed

text \<open>
  Claim C9. \<open>shareUsed\<close> never divides by zero: a new jobset has shares 1, \<open>setShares\<close>
  stores only values that are at least 1, and in every jobset reached from a new one
  the shares are at least 1, so that \<open>shareUsed\<close> is the quotient of the seconds by the
  shares.
\<close>

theorem shareUsed_divisor_nonzero:
  "shares newJobset = 1
   \<and> (setShares n J0 = Inr J1 \<longrightarrow> 1 \<le> unat (shares J1))
   \<and> (runJobset ops newJobset = Inr J \<longrightarrow>
        1 \<le> unat (shares J)
        \<and> shareUsed J = Some (real_of_int (seconds J) / real (unat (shares J))))"
proof -
  have "shares newJobset = 1" by (simp add: newJobset_def)
  moreover have "1 \<le> unat (shares J1)" if "setShares n J0 = Inr J1"
  proof -
    from that have "shares J1 \<noteq> 0"
      by (auto simp: setShares_def split: if_splits)
    then show ?thesis by (simp add: unat_gt_0 Suc_leI)
  qed
  moreover have "1 \<le> unat (shares J)
        \<and> shareUsed J = Some (real_of_int (seconds J) / real (unat (shares J)))"
    if "runJobset ops newJobset = Inr J"
  proof -
    have "shares J \<noteq> 0"
      using runJobset_shares [OF newJobset_shares that] .
    then show ?thesis
      by (simp add: shareUsed_def unat_gt_0 Suc_leI)
  qed
  ultimately show ?thesis by blast
qed

theorem shareUsed_divisor_nonzero_witness:
  "setShares 3 newJobset = Inr (newJobset\<lparr>shares := 3\<rparr>)
   \<and> 1 \<le> unat (shares (newJobset\<lparr>shares := 3\<rparr>))
   \<and> runJobset [SetShares 3, AddStep 50 12] newJobset
        = Inr \<lparr>seconds = 12, shares = 3, steps = [(50, 12)]\<rparr>
   \<and> 1 \<le> unat (shares \<lparr>seconds = 12, shares = 3, steps = [(50, 12)]\<rparr>)
   \<and> shareUsed \<lparr>seconds = 12, shares = 3, steps = [(50, 12)]\<rparr> = Some 4"
proof -
  have g: "setShares 3 newJobset = Inr (newJobset\<lparr>shares := 3\<rparr>)"
    by (simp add: setShares_def)
  have h: "runJobset [SetShares 3, AddStep 50 12] newJobset
        = Inr \<lparr>seconds = 12, shares = 3, steps = [(50, 12)]\<rparr>"
    by (simp add: newJobset_def addStep_def setShares_def)
  show ?thesis
    using g h
      shareUsed_divisor_nonzero [where n = 3 and ?J0.0 = newJobset
        and ?J1.0 = "newJobset\<lparr>shares := 3\<rparr>" and ops = "[SetShares 3, AddStep 50 12]"
        and J = "\<lparr>seconds = 12, shares = 3, steps = [(50, 12)]\<rparr>"]
    by simp
qed

lemma windowTotal_windowAdd: "windowTotal (windowAdd t d w) = windowTotal w + d"
  by (induction w) (auto simp: windowTotal_def)

lemma windowTotal_split:
  "windowTotal (filter P w) + windowTotal (filter (\<lambda>e. \<not> P e) w) = windowTotal w"
  by (induction w) (auto simp: windowTotal_def)

lemma windowTotal_filter_if:
  "windowTotal (filter (\<lambda>e. P (fst e)) w) = (\<Sum>(t, d) \<leftarrow> w. if P t then d else 0)"
  by (induction w) (auto simp: windowTotal_def)

lemma applyOp_seconds:
  "seconds J = windowTotal (steps J) \<Longrightarrow> applyOp op J = Inr J'
     \<Longrightarrow> seconds J' = windowTotal (steps J')"
proof (cases op)
  case (SetShares n)
  assume "seconds J = windowTotal (steps J)" "applyOp op J = Inr J'"
  with SetShares show ?thesis
    by (auto simp: setShares_def split: if_splits)
next
  case (AddStep t d)
  assume "seconds J = windowTotal (steps J)" "applyOp op J = Inr J'"
  with AddStep show ?thesis
    by (auto simp: addStep_def windowTotal_windowAdd)
next
  case (PruneSteps now)
  assume "seconds J = windowTotal (steps J)" "applyOp op J = Inr J'"
  with PruneSteps show ?thesis
    using windowTotal_split [of "\<lambda>e. inWindow now (fst e)" "steps J"]
    by (auto simp: pruneSteps_def)
qed

lemma runJobset_seconds:
  "seconds J = windowTotal (steps J) \<Longrightarrow> runJobset ops J = Inr J'
     \<Longrightarrow> seconds J' = windowTotal (steps J')"
proof (induction ops arbitrary: J)
  case Nil
  then show ?case by simp
next
  case (Cons op ops)
  then show ?case
    by (auto split: sum.splits dest: applyOp_seconds)
qed

lemma newJobset_seconds: "seconds newJobset = windowTotal (steps newJobset)"
  by (simp add: newJobset_def windowTotal_def)

text \<open>
  Claim C5. For every jobset reached from a new one, after pruning its step window at
  time \<open>now\<close> the share used is the sum of the recorded durations whose start time lies
  within the last 24 hours (24 * 60 * 60 seconds before \<open>now\<close>), divided by the shares.
\<close>

theorem shareUsed_pruned:
  assumes "runJobset ops newJobset = Inr J"
  shows "shareUsed (pruneSteps now J) =
           Some (real_of_int (\<Sum>(t, d) \<leftarrow> steps J. if now - 24 * 60 * 60 < t then d else 0)
                 / real (unat (shares J)))"
proof -
  have sec: "seconds J = windowTotal (steps J)"
    using runJobset_seconds [OF newJobset_seconds assms] .
  have sh: "shares J \<noteq> 0"
    using runJobset_shares [OF newJobset_shares assms] .
  have "seconds (pruneSteps now J) = windowTotal (filter (\<lambda>e. inWindow now (fst e)) (steps J))"
    using sec windowTotal_split [of "\<lambda>e. inWindow now (fst e)" "steps J"]
    by (simp add: pruneSteps_def)
  also have "\<dots> = (\<Sum>(t, d) \<leftarrow> steps J. if now - 24 * 60 * 60 < t then d else 0)"
    by (simp add: windowTotal_filter_if inWindow_def schedulingWindow_def)
  finally show ?thesis
    using sh by (simp add: shareUsed_def pruneSteps_def)
qed

theorem shareUsed_pruned_witness:
  "runJobset [AddStep 100 30, SetShares 4, AddStep 100 5, AddStep 90000 10] newJobset
     = Inr \<lparr>seconds = 45, shares = 4, steps = [(100, 35), (90000, 10)]\<rparr>
   \<and> shareUsed (pruneSteps 90100 \<lparr>seconds = 45, shares = 4, steps = [(100, 35), (90000, 10)]\<rparr>)
     = Some (5 / 2)"
proof -
  have h: "runJobset [AddStep 100 30, SetShares 4, AddStep 100 5, AddStep 90000 10] newJobset
     = Inr \<lparr>seconds = 45, shares = 4, steps = [(100, 35), (90000, 10)]\<rparr>"
    by (simp add: newJobset_def addStep_def setShares_def)
  show ?thesis
    using h shareUsed_pruned [OF h, of 90100] by simp
qed

subsection \<open>Finalisation of a build\<close>

lemma flagTrace_hd: "flagTrace ops b = finishedInDB b # tl (flagTrace ops b)"
  by (cases ops) simp_all

lemma applyBuildOp_keeps: "finishedInDB b \<Longrightarrow> finishedInDB (applyBuildOp op b)"
  by (cases op) simp_all

lemma flagTrace_counts:
  "falls (flagTrace ops b) = 0 \<and> rises (flagTrace ops b) \<le> (if finishedInDB b then 0 else 1)"
proof (induction ops arbitrary: b)
  case Nil
  then show ?case by simp
next
  case (Cons op ops)
  obtain r where r: "flagTrace ops (applyBuildOp op b) = finishedInDB (applyBuildOp op b) # r"
    using flagTrace_hd by blast
  from Cons.IH [of "applyBuildOp op b"] r applyBuildOp_keeps [of b op]
  show ?case by (auto split: if_splits)
qed

text \<open>
  Claim C7. The flag \<open>finishedInDB\<close> of a build starts false; no operation sets it back
  from true to false; and over the lifetime of a build it changes from false to true at
  most once and never from true to false.
\<close>

theorem finishedInDB_once:
  "finishedInDB (newBuild i lp gp) = False
   \<and> (finishedInDB b \<longrightarrow> finishedInDB (applyBuildOp op b))
   \<and> rises (flagTrace ops (newBuild i lp gp)) \<le> 1
   \<and> falls (flagTrace ops (newBuild i lp gp)) = 0"
  using flagTrace_counts [of ops "newBuild i lp gp"] applyBuildOp_keeps [of b op]
  by (auto simp: newBuild_def)

theorem finishedInDB_once_witness:
  "finishedInDB (applyBuildOp Finalize (newBuild 7 0 0))
   \<and> finishedInDB (applyBuildOp (BumpPriority 5) (applyBuildOp Finalize (newBuild 7 0 0)))
   \<and> flagTrace [BumpPriority 3, Finalize, BumpPriority 5, Finalize] (newBuild 7 0 0)
        = [False, False, True, True, True]
   \<and> rises [False, False, True, True, True] \<le> 1
   \<and> falls [False, False, True, True, True] = 0"
proof -
  have h: "finishedInDB (applyBuildOp Finalize (newBuild 7 0 0))"
    by (simp add: newBuild_def)
  have t: "flagTrace [BumpPriority 3, Finalize, BumpPriority 5, Finalize] (newBuild 7 0 0)
        = [False, False, True, True, True]"
    by (simp add: newBuild_def)
  show ?thesis
    using h t
      finishedInDB_once [where b = "applyBuildOp Finalize (newBuild 7 0 0)"
        and op = "BumpPriority 5" and i = 7 and lp = 0 and gp = 0
        and ops = "[BumpPriority 3, Finalize, BumpPriority 5, Finalize]"]
    by simp
qed

subsection \<open>The system type of a step\<close>

text \<open>
  Claim C8, amended. The system type of a step is its derivation's platform
  concatenated with its required system features in ascending order without
  duplicates; \<open>supportsStep\<close>, which matches steps to machines, does not read this
  string: its result is the same whatever the string is.
\<close>

theorem systemType_concat:
  "systemType (newStep path plat feats pl)
     = platform (drv (newStep path plat feats pl))
       @ concat (requiredSystemFeatures (newStep path plat feats pl))
   \<and> requiredSystemFeatures (newStep path plat feats pl) = sort (remdups feats)
   \<and> sorted (requiredSystemFeatures (newStep path plat feats pl))
   \<and> distinct (requiredSystemFeatures (newStep path plat feats pl))
   \<and> set (requiredSystemFeatures (newStep path plat feats pl)) = set feats
   \<and> supportsStep m (s\<lparr>systemType := k\<rparr>) = supportsStep m s"
proof -
  have "mandatoryLoop (s\<lparr>systemType := k\<rparr>) fs = mandatoryLoop s fs" for fs
    by (induction fs) simp_all
  then have "supportsStep m (s\<lparr>systemType := k\<rparr>) = supportsStep m s"
    by (simp add: supportsStep_def)
  then show ?thesis
    by (simp add: newStep_def sorted_list_of_set_sort_remdups)
qed

text \<open>
  The claim as written fails: two steps with the same platform and the same (empty)
  required features, hence the same system type, of which a machine whose only
  mandatory feature is "local" supports the one that prefers local builds and not the
  other. The system type does not decide the match.
\<close>

theorem systemType_not_match_key_counterexample:
  "systemType (newStep ''/nix/store/a.drv'' ''x86_64-linux'' [] False)
     = systemType (newStep ''/nix/store/b.drv'' ''x86_64-linux'' [] True)
   \<and> \<not> supportsStep
         \<lparr>enabled = True, sshName = ''builder1'', systemTypes = [''x86_64-linux''],
          supportedFeatures = [], mandatoryFeatures = [''local'']\<rparr>
         (newStep ''/nix/store/a.drv'' ''x86_64-linux'' [] False)
   \<and> supportsStep
         \<lparr>enabled = True, sshName = ''builder1'', systemTypes = [''x86_64-linux''],
          supportedFeatures = [], mandatoryFeatures = [''local'']\<rparr>
         (newStep ''/nix/store/b.drv'' ''x86_64-linux'' [] True)"
  by (simp add: newStep_def supportsStep_def)

subsection \<open>A new step state\<close>

lemma BuildID_max_unat: "unat BuildID_max = 2 ^ 32 - 1"
  by (simp add: BuildID_max_def unsigned_minus_1_eq_mask mask_eq_exp_minus_1)

lemma BuildID_max_top: "w \<le> BuildID_max"
  by (simp add: BuildID_max_def)

lemma min_BuildID_max: "min BuildID_max w = w"
  using BuildID_max_top [of w] by (simp add: min_def)

text \<open>
  Claim C10, amended. A new step state has \<open>created\<close> false, \<open>tries\<close> 0, empty \<open>deps\<close>,
  \<open>rdeps\<close>, \<open>builds\<close> and \<open>jobsets\<close>, both cached priorities 0 and \<open>lowestBuildID\<close> equal to
  2^32 - 1, the largest build id; \<open>lowestShareUsed\<close> has no value. Attaching a build to
  a new state never worsens the cached extrema: no build id is above 2^32 - 1 and
  \<open>lowestBuildID\<close> becomes the id of the build, and each cached priority becomes the
  larger of 0 and the build's priority.
\<close>

theorem newStepState_defaults:
  "created newStepState = False \<and> tries newStepState = 0
   \<and> deps newStepState = {} \<and> rdeps newStepState = [] \<and> builds newStepState = []
   \<and> jobsets newStepState = {}
   \<and> highestGlobalPriority newStepState = 0 \<and> highestLocalPriority newStepState = 0
   \<and> unat (lowestBuildID newStepState) = 2 ^ 32 - 1
   \<and> lowestShareUsed newStepState = None
   \<and> build_id b \<le> lowestBuildID newStepState
   \<and> lowestBuildID (attachBuild b newStepState) = build_id b
   \<and> sint (highestGlobalPriority (attachBuild b newStepState)) = max 0 (sint (globalPriority b))
   \<and> sint (highestLocalPriority (attachBuild b newStepState)) = max 0 (sint (localPriority b))"
proof -
  have init: "created newStepState = False \<and> tries newStepState = 0
   \<and> deps newStepState = {} \<and> rdeps newStepState = [] \<and> builds newStepState = []
   \<and> jobsets newStepState = {}
   \<and> highestGlobalPriority newStepState = 0 \<and> highestLocalPriority newStepState = 0
   \<and> lowestShareUsed newStepState = None"
    by (simp add: newStepState_def)
  have lo: "lowestBuildID newStepState = BuildID_max"
    by (simp add: newStepState_def)
  have att: "lowestBuildID (attachBuild b newStepState) = build_id b"
    by (simp add: attachBuild_def lo min_BuildID_max)
  have pri: "sint (highestGlobalPriority (attachBuild b newStepState)) = max 0 (sint (globalPriority b))
     \<and> sint (highestLocalPriority (attachBuild b newStepState)) = max 0 (sint (localPriority b))"
    by (simp add: attachBuild_def newStepState_def int_max_def max_def)
  show ?thesis
    using init att pri BuildID_max_top [of "build_id b"] BuildID_max_unat by (simp add: lo)
qed

text \<open>
  The claim as written fails: attaching a build whose priorities are 0 leaves both
  cached priorities at 0, and attaching the build with id 2^32 - 1 leaves
  \<open>lowestBuildID\<close> where it was; none of the three is strictly improved.
\<close>

theorem attach_not_strict_counterexample:
  "\<not> sint (highestGlobalPriority newStepState)
       < sint (highestGlobalPriority (attachBuild (newBuild 1 0 0) newStepState))
   \<and> \<not> sint (highestLocalPriority newStepState)
       < sint (highestLocalPriority (attachBuild (newBuild 1 0 0) newStepState))
   \<and> \<not> lowestBuildID (attachBuild (newBuild 4294967295 0 0) newStepState)
       < lowestBuildID newStepState"
  by (simp add: attachBuild_def newStepState_def newBuild_def int_max_def BuildID_max_def)

subsection \<open>The retry budget\<close>

text \<open>
  Claim C4. The retry constants are \<open>maxTries\<close> = 5, \<open>retryInterval\<close> = 60 seconds and
  \<open>retryBackoff\<close> = 3; a step whose incremented tries counter \<open>t\<close> exceeds 5 becomes a
  terminal failure, and otherwise its retry is scheduled at \<open>now + 60 * 3 ^ (t - 1)\<close>
  seconds: 60, 180, 540, 1620 and 4860 seconds after \<open>now\<close> for the first five tries.
\<close>

theorem retry_budget:
  "maxTries = 5 \<and> retryInterval = 60 \<and> retryBackoff = 3
   \<and> retryStep (t - 1) now =
       (t, if 5 < unat t then GiveUp else RetryAfter (now + 60 * 3 ^ unat (t - 1)))
   \<and> map (\<lambda>n. retryStep n now) [0, 1, 2, 3, 4, 5]
       = [(1, RetryAfter (now + 60)), (2, RetryAfter (now + 180)), (3, RetryAfter (now + 540)),
          (4, RetryAfter (now + 1620)), (5, RetryAfter (now + 4860)), (6, GiveUp)]"
proof -
  have lt: "(5 :: 32 word) < t \<longleftrightarrow> 5 < unat t"
    by (simp add: word_less_nat_alt)
  have step: "retryStep (t - 1) now =
       (t, if 5 < unat t then GiveUp else RetryAfter (now + 60 * 3 ^ unat (t - 1)))"
    using lt by (simp add: retryStep_def maxTries_def retryInterval_def retryBackoff_def)
  have tab: "map (\<lambda>n. retryStep n now) [0, 1, 2, 3, 4, 5]
       = [(1, RetryAfter (now + 60)), (2, RetryAfter (now + 180)), (3, RetryAfter (now + 540)),
          (4, RetryAfter (now + 1620)), (5, RetryAfter (now + 4860)), (6, GiveUp)]"
    by (simp add: retryStep_def maxTries_def retryInterval_def retryBackoff_def)
  show ?thesis
    using step tab by (simp add: maxTries_def retryInterval_def retryBackoff_def)
qed

end
